theory Spec2Isabelle
  imports Complex_Main "HOL-Library.Product_Lexorder" "HOL-Library.AList"
begin

section \<open>meteoCocito: catalog, readings, archive scan and statistics\<close>

text \<open>
  A shallow embedding of \<^verbatim>\<open>meteoCocito.py\<close>. Python strings are lists of code points;
  every code point the module uses is below 256, so \<^typ>\<open>string\<close> holds them
  (\<open>CHR 0xB0\<close> is the degree sign, \<open>CHR 0xB5\<close> the micro sign, \<open>CHR 0xB3\<close> the
  superscript three, \<open>CHR 0xE0\<close> the letter a with grave accent). A Python float is
  idealised as the real number it denotes: NaN, the infinities and the final rounding of
  a result to the nearest double are outside the model. Every exception is a value of
  type \<open>error\<close>, returned as \<open>Inl\<close>.
\<close>

datatype error = ValueError | AttributeError | OSError | StatisticsError | KeyError

subsection \<open>class DataType and the catalog DataTypeArchive.data\<close>

record DataType =
  symbol :: string
  unit :: string
  fileName :: string
  italianName :: string
  precision :: int

text \<open>The constructor; \<open>precision\<close> defaults to 2 and no catalog entry overrides it.\<close>

definition DataType_init :: "string \<Rightarrow> string \<Rightarrow> string \<Rightarrow> string \<Rightarrow> DataType" where
  "DataType_init sy un fn itn =
     \<lparr>symbol = sy, unit = un, fileName = fn, italianName = itn, precision = 2\<rparr>"

definition data :: "DataType list" where
  "data =
    [DataType_init ''T'' [CHR 0xB0, CHR ''C''] ''temperature.csv'' ''Temperatura'',
     DataType_init ''H'' ''%'' ''humidity.csv'' (''Umidit'' @ [CHR 0xE0]),
     DataType_init ''P'' ''hPa'' ''pressure.csv'' ''Pressione'',
     DataType_init ''PM10'' ([CHR 0xB5] @ ''g/m'' @ [CHR 0xB3]) ''pm10.csv'' ''PM10'',
     DataType_init ''PM25'' ([CHR 0xB5] @ ''g/m'' @ [CHR 0xB3]) ''pm25.csv'' ''PM2,5'',
     DataType_init ''S'' ([CHR 0xB5] @ ''g/m'' @ [CHR 0xB3]) ''smoke.csv''
       ''Fumo e vapori infiammabili'']"

text \<open>\<open>DataType.__eq__\<close> compares the symbols only.\<close>

definition DataType_eq :: "DataType \<Rightarrow> DataType \<Rightarrow> bool" where
  "DataType_eq a b = (symbol a = symbol b)"

text \<open>The enum \<open>DataTypeArchive.Symbols\<close>, the value of a member, and the lookup of a
  member by value (\<open>Symbols(v)\<close>, a ValueError when no member has that value).\<close>

datatype Symbols = temperature | humidity | pressure | pm10 | pm25 | smoke

fun Symbols_value :: "Symbols \<Rightarrow> string" where
  "Symbols_value temperature = ''T''"
| "Symbols_value humidity = ''H''"
| "Symbols_value pressure = ''P''"
| "Symbols_value pm10 = ''PM10''"
| "Symbols_value pm25 = ''PM25''"
| "Symbols_value smoke = ''S''"

definition Symbols_members :: "Symbols list" where
  "Symbols_members = [temperature, humidity, pressure, pm10, pm25, smoke]"

definition Symbols_call :: "string \<Rightarrow> error + Symbols" where
  "Symbols_call v =
     (case find (\<lambda>m. Symbols_value m = v) Symbols_members of
        None \<Rightarrow> Inl ValueError
      | Some m \<Rightarrow> Inr m)"

text \<open>The four lookups walk the catalog and return the first hit, \<open>None\<close> without one.\<close>

definition fromSymbol :: "string \<Rightarrow> DataType option" where
  "fromSymbol sy = find (\<lambda>dataType. symbol dataType = sy) data"

definition fromUnit :: "string \<Rightarrow> DataType option" where
  "fromUnit un = find (\<lambda>dataType. unit dataType = un) data"

definition fromFileName :: "string \<Rightarrow> DataType option" where
  "fromFileName fn = find (\<lambda>dataType. fileName dataType = fn) data"

definition fromItalianName :: "string \<Rightarrow> DataType option" where
  "fromItalianName itn = find (\<lambda>dataType. italianName dataType = itn) data"

subsection \<open>Python built-ins the module calls\<close>

text \<open>
  \<open>round(x, ndigits)\<close> on a float rounds the exact value of \<open>x\<close> to \<open>ndigits\<close>
  decimals, a tie going to the even neighbour.
\<close>

definition round_half_even :: "real \<Rightarrow> int" where
  "round_half_even x =
     (let f = \<lfloor>x\<rfloor>; d = x - of_int f
      in if d < 1 / 2 then f else if 1 / 2 < d then f + 1 else if even f then f else f + 1)"

definition round_py :: "real \<Rightarrow> int \<Rightarrow> real" where
  "round_py x ndigits =
     (if 0 \<le> ndigits
      then of_int (round_half_even (x * 10 ^ nat ndigits)) / 10 ^ nat ndigits
      else of_int (round_half_even (x / 10 ^ nat (- ndigits))) * 10 ^ nat (- ndigits))"

text \<open>\<open>int(x)\<close> on a float truncates towards zero.\<close>

definition int_of_float :: "real \<Rightarrow> int" where
  "int_of_float x = (if 0 \<le> x then \<lfloor>x\<rfloor> else \<lceil>x\<rceil>)"

text \<open>\<open>s.split(sep)\<close> for a one-character separator: never the empty list.\<close>

fun split_py :: "char \<Rightarrow> string \<Rightarrow> string list" where
  "split_py sep [] = [[]]"
| "split_py sep (c # cs) =
     (if c = sep then [] # split_py sep cs
      else (case split_py sep cs of [] \<Rightarrow> [[c]] | w # ws \<Rightarrow> (c # w) # ws))"

text \<open>\<open>str(n)\<close> for an int, and \<open>s.zfill(width)\<close>, which pads after a leading sign.\<close>

definition digit_char :: "nat \<Rightarrow> char" where
  "digit_char d = char_of (48 + d)"

fun str_nat :: "nat \<Rightarrow> string" where
  "str_nat n = (if n < 10 then [digit_char n] else str_nat (n div 10) @ [digit_char (n mod 10)])"

definition str_int :: "int \<Rightarrow> string" where
  "str_int i = (if i < 0 then CHR ''-'' # str_nat (nat (- i)) else str_nat (nat i))"

definition zfill :: "nat \<Rightarrow> string \<Rightarrow> string" where
  "zfill width s =
     (if width \<le> length s then s
      else (case s of
              c # cs \<Rightarrow>
                (if c = CHR ''+'' \<or> c = CHR ''-''
                 then c # replicate (width - length s) CHR ''0'' @ cs
                 else replicate (width - length s) CHR ''0'' @ s)
            | [] \<Rightarrow> replicate width CHR ''0''))"

text \<open>
  \<open>statistics.mean\<close> raises StatisticsError on no data; \<open>statistics.stdev\<close>, the
  sample standard deviation, raises it on fewer than two data points.
\<close>

definition mean_py :: "real list \<Rightarrow> error + real" where
  "mean_py xs = (if xs = [] then Inl StatisticsError else Inr (sum_list xs / real (length xs)))"

definition stdev_py :: "real list \<Rightarrow> error + real" where
  "stdev_py xs =
     (if length xs < 2 then Inl StatisticsError
      else (let m = sum_list xs / real (length xs)
            in Inr (sqrt (sum_list (map (\<lambda>x. (x - m)\<^sup>2) xs) / real (length xs - 1)))))"

text \<open>
  A \<open>datetime\<close> is the tuple (year, month, day, hour, minute, second, microsecond);
  naive datetimes compare as these tuples do, lexicographically.
\<close>

type_synonym datetime = "nat \<times> nat \<times> nat \<times> nat \<times> nat \<times> nat \<times> nat"

text \<open>
  The parsers the scan calls are parameters of the model: \<open>int(s)\<close> and \<open>float(s)\<close> on a
  string and \<open>datetime.strptime(s, format)\<close>, each \<open>None\<close> where Python raises
  ValueError. The properties of the scan below hold for every such triple.
\<close>

record pylib =
  int_py :: "string \<Rightarrow> int option"
  float_py :: "string \<Rightarrow> real option"
  strptime :: "string \<Rightarrow> string \<Rightarrow> datetime option"

subsection \<open>class Value\<close>

record Value =
  value_v :: real
  symbol_v :: Symbols
  instant :: datetime

text \<open>
  The constructor rounds to the precision of the catalog entry of the symbol; a symbol
  without an entry would make \<open>fromSymbol\<close> return \<open>None\<close> and the attribute access
  raise. The defaults are \<open>Symbols.temperature\<close> and the clock at import time.
\<close>

definition Value_init :: "real \<Rightarrow> Symbols \<Rightarrow> datetime \<Rightarrow> error + Value" where
  "Value_init x sy inst =
     (case fromSymbol (Symbols_value sy) of
        None \<Rightarrow> Inl AttributeError
      | Some dataType \<Rightarrow>
          Inr \<lparr>value_v = round_py x (precision dataType), symbol_v = sy, instant = inst\<rparr>)"

definition Value_int :: "Value \<Rightarrow> int" where
  "Value_int v = int_of_float (value_v v)"

definition Value_float :: "Value \<Rightarrow> real" where
  "Value_float v = value_v v"

subsection \<open>The archive on disk and glob\<close>

text \<open>
  The directory \<open>dati\<close> is a tree: a file is the list of lines \<open>readlines\<close> returns,
  a directory the list of its entries in the order the file system lists them. Entry
  names are taken to hold no glob metacharacter, so the directory part of every pattern
  the scan builds is literal and only the last component is matched.
\<close>

datatype node = File "string list" | Dir "(string \<times> node) list"

text \<open>\<open>fnmatch name pattern\<close> for patterns made of literals, \<open>*\<close> and \<open>?\<close>.\<close>

fun fnmatch :: "string \<Rightarrow> string \<Rightarrow> bool" where
  "fnmatch [] [] = True"
| "fnmatch (c # cs) [] = False"
| "fnmatch [] (p # ps) = (p = CHR ''*'' \<and> fnmatch [] ps)"
| "fnmatch (c # cs) (p # ps) =
     (if p = CHR ''*'' then fnmatch (c # cs) ps \<or> fnmatch cs (p # ps)
      else (p = CHR ''?'' \<or> p = c) \<and> fnmatch cs ps)"

definition ishidden :: "string \<Rightarrow> bool" where
  "ishidden s = (case s of [] \<Rightarrow> False | c # cs \<Rightarrow> c = CHR ''.'')"

text \<open>
  \<open>glob.glob(dirPath + "/" + pattern)\<close> where \<open>nd\<close> is what \<open>dirPath\<close> names: the
  paths of the matching entries, each with the node it names. A pattern that does not
  start with a dot skips the hidden entries; a path that is not a directory has none.
\<close>

definition glob1 :: "string \<Rightarrow> node \<Rightarrow> string \<Rightarrow> (string \<times> node) list" where
  "glob1 dirPath nd pattern =
     (case nd of
        File lines \<Rightarrow> []
      | Dir entries \<Rightarrow>
          map (\<lambda>p. (dirPath @ ''/'' @ fst p, snd p))
            (filter (\<lambda>p. (ishidden pattern \<or> \<not> ishidden (fst p)) \<and> fnmatch (fst p) pattern)
               entries))"

subsection \<open>class DataArchive\<close>

definition lastPathElement :: "string \<Rightarrow> string" where
  "lastPathElement path = last (split_py CHR ''/'' path)"

text \<open>The innermost loop of \<open>betweenDatetimes\<close>, over the lines of one CSV file; \<open>acc\<close>
  is the list \<open>list\<close> being appended to.\<close>

fun scan_lines ::
  "pylib \<Rightarrow> datetime \<Rightarrow> datetime \<Rightarrow> Symbols \<Rightarrow> string list \<Rightarrow> Value list \<Rightarrow> error + Value list"
  where
  "scan_lines lib start end_dt ty [] acc = Inr acc"
| "scan_lines lib start end_dt ty (line # rest) acc =
     (let l = split_py CHR '','' line
      in if length l < 2 then scan_lines lib start end_dt ty rest acc
         else (case strptime lib (l ! 0) ''%Y-%m-%d %H:%M:%S'' of
                 None \<Rightarrow> Inl ValueError
               | Some dateT \<Rightarrow>
                   (if start > dateT \<or> end_dt < dateT
                    then scan_lines lib start end_dt ty rest acc
                    else (case float_py lib (l ! 1) of
                            None \<Rightarrow> Inl ValueError
                          | Some x \<Rightarrow>
                              (case Value_init x ty dateT of
                                 Inl e \<Rightarrow> Inl e
                               | Inr v \<Rightarrow> scan_lines lib start end_dt ty rest (acc @ [v]))))))"

text \<open>The loop over the \<open>*.csv\<close> paths of one day; opening a directory raises.\<close>

fun scan_files ::
  "pylib \<Rightarrow> datetime \<Rightarrow> datetime \<Rightarrow> (string \<times> node) list \<Rightarrow> Value list \<Rightarrow> error + Value list"
  where
  "scan_files lib start end_dt [] acc = Inr acc"
| "scan_files lib start end_dt ((elementPath, nd) # rest) acc =
     (let lep = lastPathElement elementPath
      in case fromFileName lep of
           None \<Rightarrow> Inl AttributeError
         | Some dataType \<Rightarrow>
             (case Symbols_call (symbol dataType) of
                Inl e \<Rightarrow> Inl e
              | Inr ty \<Rightarrow>
                  (case nd of
                     Dir entries \<Rightarrow> Inl OSError
                   | File lines \<Rightarrow>
                       (case scan_lines lib start end_dt ty lines acc of
                          Inl e \<Rightarrow> Inl e
                        | Inr acc' \<Rightarrow> scan_files lib start end_dt rest acc'))))"

text \<open>The loop over the day paths of one month: the pivot is midnight of the day the
  three directory names spell.\<close>

definition pivot_text :: "int \<Rightarrow> int \<Rightarrow> int \<Rightarrow> string" where
  "pivot_text year month day =
     zfill 4 (str_int year) @ ''-'' @ zfill 2 (str_int month) @ ''-'' @ zfill 2 (str_int day)"

fun scan_days ::
  "pylib \<Rightarrow> datetime \<Rightarrow> datetime \<Rightarrow> int \<Rightarrow> int \<Rightarrow> (string \<times> node) list \<Rightarrow> Value list \<Rightarrow>
   error + Value list" where
  "scan_days lib start end_dt year month [] acc = Inr acc"
| "scan_days lib start end_dt year month ((dPath, nd) # rest) acc =
     (case int_py lib (lastPathElement dPath) of
        None \<Rightarrow> Inl ValueError
      | Some day \<Rightarrow>
          (case strptime lib (pivot_text year month day) ''%Y-%m-%d'' of
             None \<Rightarrow> Inl ValueError
           | Some pivot \<Rightarrow>
               (if start > pivot \<or> pivot > end_dt
                then scan_days lib start end_dt year month rest acc
                else (case scan_files lib start end_dt (glob1 dPath nd ''*.csv'') acc of
                        Inl e \<Rightarrow> Inl e
                      | Inr acc' \<Rightarrow> scan_days lib start end_dt year month rest acc'))))"

fun scan_months ::
  "pylib \<Rightarrow> datetime \<Rightarrow> datetime \<Rightarrow> int \<Rightarrow> (string \<times> node) list \<Rightarrow> Value list \<Rightarrow>
   error + Value list" where
  "scan_months lib start end_dt year [] acc = Inr acc"
| "scan_months lib start end_dt year ((mPath, nd) # rest) acc =
     (case int_py lib (lastPathElement mPath) of
        None \<Rightarrow> Inl ValueError
      | Some month \<Rightarrow>
          (case scan_days lib start end_dt year month (glob1 mPath nd ''*'') acc of
             Inl e \<Rightarrow> Inl e
           | Inr acc' \<Rightarrow> scan_months lib start end_dt year rest acc'))"

fun scan_years ::
  "pylib \<Rightarrow> datetime \<Rightarrow> datetime \<Rightarrow> (string \<times> node) list \<Rightarrow> Value list \<Rightarrow> error + Value list"
  where
  "scan_years lib start end_dt [] acc = Inr acc"
| "scan_years lib start end_dt ((yPath, nd) # rest) acc =
     (case int_py lib (lastPathElement yPath) of
        None \<Rightarrow> Inl ValueError
      | Some year \<Rightarrow>
          (case scan_months lib start end_dt year (glob1 yPath nd ''*'') acc of
             Inl e \<Rightarrow> Inl e
           | Inr acc' \<Rightarrow> scan_years lib start end_dt rest acc'))"

text \<open>\<open>betweenDatetimes(start, end)\<close> run where \<open>dati\<close> is the node the relative path
  \<open>dati\<close> names.\<close>

definition betweenDatetimes ::
  "pylib \<Rightarrow> node \<Rightarrow> datetime \<Rightarrow> datetime \<Rightarrow> error + Value list" where
  "betweenDatetimes lib dati start end_dt =
     scan_years lib start end_dt (glob1 ''dati'' dati ''2*'') []"

subsection \<open>The parsers on the spellings the archive uses\<close>

text \<open>
  A concrete \<open>pylib\<close> for running the scan: \<open>int\<close> on an optionally signed run of
  ASCII digits, \<open>float\<close> on an optionally signed decimal with at most one point, both
  after stripping white space, and \<open>strptime\<close> for the two formats of the module on
  zero-padded fields, with the calendar check. CPython accepts further spellings
  (underscores, exponents, unpadded fields); these functions reject them.
\<close>

definition digit_val :: "char \<Rightarrow> nat option" where
  "digit_val c =
     (let n = (of_char c :: nat) in if 48 \<le> n \<and> n \<le> 57 then Some (n - 48) else None)"

fun digits_val :: "string \<Rightarrow> nat \<Rightarrow> nat option" where
  "digits_val [] a = Some a"
| "digits_val (c # cs) a =
     (case digit_val c of None \<Rightarrow> None | Some d \<Rightarrow> digits_val cs (10 * a + d))"

definition nat_of_string :: "string \<Rightarrow> nat option" where
  "nat_of_string s = (if s = [] then None else digits_val s 0)"

definition is_space :: "char \<Rightarrow> bool" where
  "is_space c = (c \<in> {CHR '' '', CHR 0x09, CHR 0x0A, CHR 0x0B, CHR 0x0C, CHR 0x0D})"

definition strip_py :: "string \<Rightarrow> string" where
  "strip_py s = rev (dropWhile is_space (rev (dropWhile is_space s)))"

definition unsigned_decimal :: "string \<Rightarrow> real option" where
  "unsigned_decimal s =
     (case split_py CHR ''.'' s of
        [ip] \<Rightarrow> map_option real (nat_of_string ip)
      | [ip, fp] \<Rightarrow>
          (if ip = [] \<and> fp = [] then None
           else (case (digits_val ip 0, digits_val fp 0) of
                   (Some a, Some b) \<Rightarrow> Some (real a + real b / 10 ^ length fp)
                 | _ \<Rightarrow> None))
      | _ \<Rightarrow> None)"

definition int_of_string :: "string \<Rightarrow> int option" where
  "int_of_string s =
     (case strip_py s of
        [] \<Rightarrow> None
      | c # cs \<Rightarrow>
          (if c = CHR ''-'' then map_option (\<lambda>n. - int n) (nat_of_string cs)
           else if c = CHR ''+'' then map_option int (nat_of_string cs)
           else map_option int (nat_of_string (c # cs))))"

definition float_of_string :: "string \<Rightarrow> real option" where
  "float_of_string s =
     (case strip_py s of
        [] \<Rightarrow> None
      | c # cs \<Rightarrow>
          (if c = CHR ''-'' then map_option uminus (unsigned_decimal cs)
           else if c = CHR ''+'' then unsigned_decimal cs
           else unsigned_decimal (c # cs)))"

definition leap_year :: "nat \<Rightarrow> bool" where
  "leap_year y = (y mod 4 = 0 \<and> (y mod 100 \<noteq> 0 \<or> y mod 400 = 0))"

definition days_in_month :: "nat \<Rightarrow> nat \<Rightarrow> nat" where
  "days_in_month y m =
     (if m = 2 then (if leap_year y then 29 else 28)
      else if m = 4 \<or> m = 6 \<or> m = 9 \<or> m = 11 then 30 else 31)"

definition fixed_nat :: "nat \<Rightarrow> string \<Rightarrow> nat option" where
  "fixed_nat w s = (if length s = w then nat_of_string s else None)"

definition parse_date :: "string \<Rightarrow> (nat \<times> nat \<times> nat) option" where
  "parse_date s =
     (case split_py CHR ''-'' s of
        [ys, ms, ds] \<Rightarrow>
          (case (fixed_nat 4 ys, fixed_nat 2 ms, fixed_nat 2 ds) of
             (Some y, Some m, Some d) \<Rightarrow>
               (if 1 \<le> y \<and> 1 \<le> m \<and> m \<le> 12 \<and> 1 \<le> d \<and> d \<le> days_in_month y m
                then Some (y, m, d) else None)
           | _ \<Rightarrow> None)
      | _ \<Rightarrow> None)"

definition parse_time :: "string \<Rightarrow> (nat \<times> nat \<times> nat) option" where
  "parse_time s =
     (case split_py CHR '':'' s of
        [hs, ms, ss] \<Rightarrow>
          (case (fixed_nat 2 hs, fixed_nat 2 ms, fixed_nat 2 ss) of
             (Some h, Some m, Some sec) \<Rightarrow>
               (if h \<le> 23 \<and> m \<le> 59 \<and> sec \<le> 59 then Some (h, m, sec) else None)
           | _ \<Rightarrow> None)
      | _ \<Rightarrow> None)"

definition strptime_std :: "string \<Rightarrow> string \<Rightarrow> datetime option" where
  "strptime_std s fmt =
     (if fmt = ''%Y-%m-%d''
      then (case parse_date s of
              None \<Rightarrow> None
            | Some (y, m, d) \<Rightarrow> Some (y, m, d, 0, 0, 0, 0))
      else if fmt = ''%Y-%m-%d %H:%M:%S''
      then (case split_py CHR '' '' s of
              [ds, ts] \<Rightarrow>
                (case (parse_date ds, parse_time ts) of
                   (Some (y, m, d), Some (h, mi, sec)) \<Rightarrow> Some (y, m, d, h, mi, sec, 0)
                 | _ \<Rightarrow> None)
            | _ \<Rightarrow> None)
      else None)"

definition cpython :: pylib where
  "cpython = \<lparr>int_py = int_of_string, float_py = float_of_string, strptime = strptime_std\<rparr>"

subsection \<open>class Stats\<close>

text \<open>
  \<open>tempMap\<close> and \<open>resultMap\<close> are dicts keyed by symbol; a dict keeps insertion order,
  so each is an association list that \<open>AList.update\<close> changes in place or extends at
  the end. An entry of \<open>resultMap\<close> starts with the keys max, min and itemCount and
  gains stdev, mean and mode in the second loop.
\<close>

record temp =
  list_t :: "real list"
  iList :: "int list"

record entry =
  max_v :: Value
  min_v :: Value
  itemCount :: int

record aggregate = entry +
  stdev :: real
  mean :: real
  mode :: real

definition dict_get :: "('k \<times> 'v) list \<Rightarrow> 'k \<Rightarrow> error + 'v" where
  "dict_get d k = (case map_of d k of None \<Rightarrow> Inl KeyError | Some v \<Rightarrow> Inr v)"

text \<open>The fresh entry \<open>{"max": Value(-10E6), "min": Value(10E6), "itemCount": 0}\<close>;
  \<open>now\<close> is the default instant.\<close>

definition new_entry :: "datetime \<Rightarrow> error + entry" where
  "new_entry now =
     (case Value_init (- 10000000) temperature now of
        Inl e \<Rightarrow> Inl e
      | Inr mx \<Rightarrow>
          (case Value_init 10000000 temperature now of
             Inl e \<Rightarrow> Inl e
           | Inr mn \<Rightarrow> Inr \<lparr>max_v = mx, min_v = mn, itemCount = 0\<rparr>))"

text \<open>The max/min update of one element: the \<open>elif\<close> tests the minimum only when the
  maximum was not replaced.\<close>

definition update_extremes :: "Value \<Rightarrow> entry \<Rightarrow> entry" where
  "update_extremes el r =
     (if value_v el > value_v (max_v r) then r\<lparr>max_v := el\<rparr>
      else if value_v el < value_v (min_v r) then r\<lparr>min_v := el\<rparr>
      else r)"

text \<open>The body of the first loop.\<close>

definition Stats_step ::
  "datetime \<Rightarrow> Value \<Rightarrow> (Symbols \<times> temp) list \<times> (Symbols \<times> entry) list \<Rightarrow>
   error + ((Symbols \<times> temp) list \<times> (Symbols \<times> entry) list)" where
  "Stats_step now el st =
     (let tempMap = fst st; resultMap = snd st;
          tempMap1 = (if symbol_v el \<notin> set (map fst tempMap)
                      then AList.update (symbol_v el) \<lparr>list_t = [], iList = []\<rparr> tempMap
                      else tempMap)
      in case (if symbol_v el \<notin> set (map fst resultMap)
               then (case new_entry now of
                       Inl e \<Rightarrow> Inl e
                     | Inr r0 \<Rightarrow> Inr (AList.update (symbol_v el) r0 resultMap))
               else Inr resultMap) of
           Inl e \<Rightarrow> Inl e
         | Inr resultMap1 \<Rightarrow>
             (case dict_get resultMap1 (symbol_v el) of
                Inl e \<Rightarrow> Inl e
              | Inr r \<Rightarrow>
                  (case dict_get tempMap1 (symbol_v el) of
                     Inl e \<Rightarrow> Inl e
                   | Inr t \<Rightarrow>
                       (let r1 = update_extremes el r;
                            t1 = t\<lparr>list_t := list_t t @ [value_v el],
                                   iList := iList t @ [int_of_float (value_v el)]\<rparr>;
                            r2 = r1\<lparr>itemCount := itemCount r1 + 1\<rparr>
                        in Inr (AList.update (symbol_v el) t1 tempMap1,
                                AList.update (symbol_v el) r2 resultMap1)))))"

fun Stats_pass ::
  "datetime \<Rightarrow> Value list \<Rightarrow> (Symbols \<times> temp) list \<times> (Symbols \<times> entry) list \<Rightarrow>
   error + ((Symbols \<times> temp) list \<times> (Symbols \<times> entry) list)" where
  "Stats_pass now [] st = Inr st"
| "Stats_pass now (el # rest) st =
     (case Stats_step now el st of Inl e \<Rightarrow> Inl e | Inr st' \<Rightarrow> Stats_pass now rest st')"

text \<open>The second loop, over the keys of \<open>resultMap\<close> in insertion order.\<close>

fun Stats_summary ::
  "(Symbols \<times> temp) list \<Rightarrow> (Symbols \<times> entry) list \<Rightarrow> error + (Symbols \<times> aggregate) list" where
  "Stats_summary tempMap [] = Inr []"
| "Stats_summary tempMap ((sy, r) # rest) =
     (case dict_get tempMap sy of
        Inl e \<Rightarrow> Inl e
      | Inr t \<Rightarrow>
          (case stdev_py (list_t t) of
             Inl e \<Rightarrow> Inl e
           | Inr sd \<Rightarrow>
               (case mean_py (list_t t) of
                  Inl e \<Rightarrow> Inl e
                | Inr mn \<Rightarrow>
                    (case mean_py (map real_of_int (iList t)) of
                       Inl e \<Rightarrow> Inl e
                     | Inr md \<Rightarrow>
                         (case Stats_summary tempMap rest of
                            Inl e \<Rightarrow> Inl e
                          | Inr out \<Rightarrow>
                              Inr ((sy, \<lparr>max_v = max_v r, min_v = min_v r,
                                         itemCount = itemCount r,
                                         stdev = sd, mean = mn, mode = md\<rparr>) # out))))))"

text \<open>\<open>Stats(dataList).results\<close>, or the exception the constructor raises.\<close>

definition Stats :: "datetime \<Rightarrow> Value list \<Rightarrow> error + (Symbols \<times> aggregate) list" where
  "Stats now dataList =
     (case Stats_pass now dataList ([], []) of
        Inl e \<Rightarrow> Inl e
      | Inr st \<Rightarrow> Stats_summary (fst st) (snd st))"

subsection \<open>Notions the properties are stated with\<close>

text \<open>The raw values of the readings of one symbol, in input order.\<close>

definition readings_of :: "Symbols \<Rightarrow> Value list \<Rightarrow> real list" where
  "readings_of sy dataList = map value_v (filter (\<lambda>el. symbol_v el = sy) dataList)"

text \<open>What the first loop of \<open>Stats\<close> has established after the readings \<open>xs\<close>.\<close>

definition Stats_inv ::
  "Value list \<Rightarrow> (Symbols \<times> temp) list \<Rightarrow> (Symbols \<times> entry) list \<Rightarrow> bool" where
  "Stats_inv xs tm rm \<longleftrightarrow>
     (\<forall>sy. map_of tm sy =
        (if sy \<in> symbol_v ` set xs
         then Some \<lparr>list_t = readings_of sy xs, iList = map int_of_float (readings_of sy xs)\<rparr>
         else None)) \<and>
     (\<forall>sy. (map_of rm sy = None) = (sy \<notin> symbol_v ` set xs)) \<and>
     (\<forall>sy r. map_of rm sy = Some r \<longrightarrow> itemCount r = int (length (readings_of sy xs))) \<and>
     (\<Sum>p\<leftarrow>rm. itemCount (snd p)) = int (length xs)"

text \<open>Sample inputs: the import-time clock, two rising temperatures, one lone reading,
  and a list with two symbols.\<close>

definition sample_now :: datetime where
  "sample_now = (2024, 1, 1, 0, 0, 0, 0)"

definition rising :: "Value list" where
  "rising =
     [\<lparr>value_v = 5, symbol_v = temperature, instant = (2024, 1, 5, 8, 0, 0, 0)\<rparr>,
      \<lparr>value_v = 7, symbol_v = temperature, instant = (2024, 1, 5, 9, 0, 0, 0)\<rparr>]"

definition lone :: "Value list" where
  "lone = [\<lparr>value_v = 5, symbol_v = temperature, instant = (2024, 1, 5, 8, 0, 0, 0)\<rparr>]"

definition sample_readings :: "Value list" where
  "sample_readings =
     [\<lparr>value_v = 5.7, symbol_v = temperature, instant = (2024, 1, 5, 8, 0, 0, 0)\<rparr>,
      \<lparr>value_v = 40, symbol_v = humidity, instant = (2024, 1, 5, 8, 0, 0, 0)\<rparr>,
      \<lparr>value_v = 7.2, symbol_v = temperature, instant = (2024, 1, 5, 9, 0, 0, 0)\<rparr>,
      \<lparr>value_v = 60, symbol_v = humidity, instant = (2024, 1, 5, 9, 0, 0, 0)\<rparr>]"

text \<open>Sample archives: one day of 2024 with one temperature row at noon, and two
  year directories whose names do not begin with \<open>2\<close>.\<close>

definition sample_archive :: node where
  "sample_archive =
     Dir [(''2024'',
           Dir [(''01'',
                 Dir [(''05'',
                       Dir [(''temperature.csv'',
                             File [''2024-01-05 12:00:00,12.3456'' @ [CHR 0x0A]])])])])]"

definition old_archive :: node where
  "old_archive =
     Dir [(''1999'',
           Dir [(''01'',
                 Dir [(''05'',
                       Dir [(''temperature.csv'',
                             File [''1999-01-05 12:00:00,1.5'' @ [CHR 0x0A]])])])]),
          (''3000'',
           Dir [(''01'',
                 Dir [(''05'',
                       Dir [(''temperature.csv'',
                             File [''3000-01-05 12:00:00,2.5'' @ [CHR 0x0A]])])])])]"

section \<open>Properties\<close>

subsection \<open>The catalog\<close>

lemma data_unfold:
  "data =
    [\<lparr>symbol = ''T'', unit = [CHR 0xB0, CHR ''C''], fileName = ''temperature.csv'',
       italianName = ''Temperatura'', precision = 2\<rparr>,
     \<lparr>symbol = ''H'', unit = ''%'', fileName = ''humidity.csv'',
       italianName = ''Umidit'' @ [CHR 0xE0], precision = 2\<rparr>,
     \<lparr>symbol = ''P'', unit = ''hPa'', fileName = ''pressure.csv'',
       italianName = ''Pressione'', precision = 2\<rparr>,
     \<lparr>symbol = ''PM10'', unit = [CHR 0xB5] @ ''g/m'' @ [CHR 0xB3], fileName = ''pm10.csv'',
       italianName = ''PM10'', precision = 2\<rparr>,
     \<lparr>symbol = ''PM25'', unit = [CHR 0xB5] @ ''g/m'' @ [CHR 0xB3], fileName = ''pm25.csv'',
       italianName = ''PM2,5'', precision = 2\<rparr>,
     \<lparr>symbol = ''S'', unit = [CHR 0xB5] @ ''g/m'' @ [CHR 0xB3], fileName = ''smoke.csv'',
       italianName = ''Fumo e vapori infiammabili'', precision = 2\<rparr>]"
  by (simp add: data_def DataType_init_def)

lemma length_data: "length data = 6"
  by (simp add: data_unfold)

text \<open>
  C9. For every entry of the six-entry catalog, looking its file name up with
  \<open>fromFileName\<close> finds an entry, and looking that entry's symbol up with
  \<open>fromSymbol\<close> returns the entry started from: the same record, hence also equal
  under \<open>DataType.__eq__\<close>.
\<close>

theorem catalog_roundtrip:
  "length data = 6 \<and>
   (\<forall>entry \<in> set data.
      \<exists>found. fromFileName (fileName entry) = Some found \<and>
        fromSymbol (symbol found) = Some entry \<and>
        (\<exists>back. fromSymbol (symbol found) = Some back \<and> DataType_eq back entry))"
  by (simp add: length_data) (simp add: data_unfold fromFileName_def fromSymbol_def DataType_eq_def)

theorem catalog_roundtrip_witness:
  "\<exists>found. fromFileName ''pm25.csv'' = Some found \<and>
     fromSymbol (symbol found) =
       Some \<lparr>symbol = ''PM25'', unit = [CHR 0xB5] @ ''g/m'' @ [CHR 0xB3],
             fileName = ''pm25.csv'', italianName = ''PM2,5'', precision = 2\<rparr>"
proof -
  let ?e = "\<lparr>symbol = ''PM25'', unit = [CHR 0xB5] @ ''g/m'' @ [CHR 0xB3],
             fileName = ''pm25.csv'', italianName = ''PM2,5'', precision = 2\<rparr>"
  have "?e \<in> set data" by (simp add: data_unfold)
  with catalog_roundtrip have
    "\<exists>found. fromFileName (fileName ?e) = Some found \<and> fromSymbol (symbol found) = Some ?e"
    by blast
  then show ?thesis by simp
qed

subsection \<open>The aggregator\<close>

lemma Value_init_Inr:
  "Value_init x sy inst = Inr \<lparr>value_v = round_py x 2, symbol_v = sy, instant = inst\<rparr>"
  by (cases sy) (simp_all add: Value_init_def fromSymbol_def data_unfold)

lemma new_entry_Inr:
  "new_entry now =
     Inr \<lparr>max_v = \<lparr>value_v = round_py (- 10000000) 2, symbol_v = temperature, instant = now\<rparr>,
          min_v = \<lparr>value_v = round_py 10000000 2, symbol_v = temperature, instant = now\<rparr>,
          itemCount = 0\<rparr>"
  by (simp add: new_entry_def Value_init_Inr)

lemma not_key_iff: "k \<in> fst ` set al \<longleftrightarrow> map_of al k \<noteq> None"
  by (simp add: map_of_eq_None_iff)

lemma Stats_step_Inr:
  "Stats_step now el (tm, rm) =
     Inr (AList.update (symbol_v el)
            (let t = (case map_of tm (symbol_v el) of
                        None \<Rightarrow> \<lparr>list_t = [], iList = []\<rparr> | Some t \<Rightarrow> t)
             in t\<lparr>list_t := list_t t @ [value_v el],
                  iList := iList t @ [int_of_float (value_v el)]\<rparr>) tm,
          AList.update (symbol_v el)
            (let r = update_extremes el
                       (case map_of rm (symbol_v el) of
                          None \<Rightarrow> \<lparr>max_v = \<lparr>value_v = round_py (- 10000000) 2,
                                              symbol_v = temperature, instant = now\<rparr>,
                                     min_v = \<lparr>value_v = round_py 10000000 2,
                                              symbol_v = temperature, instant = now\<rparr>,
                                     itemCount = 0\<rparr>
                        | Some r \<Rightarrow> r)
             in r\<lparr>itemCount := itemCount r + 1\<rparr>) rm)"
  by (cases "map_of tm (symbol_v el)"; cases "map_of rm (symbol_v el)")
     (simp_all add: Stats_step_def not_key_iff new_entry_Inr dict_get_def AList.update_conv' Let_def)

lemma Stats_pass_snoc:
  "Stats_pass now (xs @ [x]) st =
     (case Stats_pass now xs st of Inl e \<Rightarrow> Inl e | Inr st' \<Rightarrow> Stats_step now x st')"
  by (induction xs arbitrary: st) (auto split: sum.splits)

lemma sum_itemCount_update:
  "(\<Sum>p\<leftarrow>AList.update k v al. itemCount (snd p)) =
     (\<Sum>p\<leftarrow>al. itemCount (snd p)) + itemCount v
       - (case map_of al k of None \<Rightarrow> 0 | Some r \<Rightarrow> itemCount r)"
  by (induction al) auto

lemma itemCount_update_extremes: "itemCount (update_extremes el r) = itemCount r"
  by (simp add: update_extremes_def)

lemma readings_of_snoc:
  "readings_of sy (xs @ [x]) = readings_of sy xs @ (if symbol_v x = sy then [value_v x] else [])"
  by (simp add: readings_of_def)

lemma readings_of_absent: "sy \<notin> symbol_v ` set xs \<Longrightarrow> readings_of sy xs = []"
  by (auto simp: readings_of_def filter_empty_conv)

lemma readings_of_present: "sy \<in> symbol_v ` set xs \<Longrightarrow> readings_of sy xs \<noteq> []"
  by (auto simp: readings_of_def filter_empty_conv)
lemma Stats_inv_step:
  assumes "Stats_inv xs tm rm" and "Stats_step now x (tm, rm) = Inr (tm', rm')"
  shows "Stats_inv (xs @ [x]) tm' rm'"
proof -
  let ?s = "symbol_v x"
  from assms(2) obtain t' r' where
    tm': "tm' = AList.update ?s t' tm" and rm': "rm' = AList.update ?s r' rm" and
    t': "t' = (let t = (case map_of tm ?s of None \<Rightarrow> \<lparr>list_t = [], iList = []\<rparr> | Some t \<Rightarrow> t)
               in t\<lparr>list_t := list_t t @ [value_v x],
                    iList := iList t @ [int_of_float (value_v x)]\<rparr>)" and
    r': "itemCount r' =
           (case map_of rm ?s of None \<Rightarrow> 0 | Some r \<Rightarrow> itemCount r) + 1"
    by (auto simp: Stats_step_Inr Let_def itemCount_update_extremes split: option.splits)
  from assms(1) have
    A: "\<And>sy. map_of tm sy =
        (if sy \<in> symbol_v ` set xs
         then Some \<lparr>list_t = readings_of sy xs, iList = map int_of_float (readings_of sy xs)\<rparr>
         else None)" and
    B: "\<And>sy. (map_of rm sy = None) = (sy \<notin> symbol_v ` set xs)" and
    C: "\<And>sy r. map_of rm sy = Some r \<Longrightarrow> itemCount r = int (length (readings_of sy xs))" and
    D: "(\<Sum>p\<leftarrow>rm. itemCount (snd p)) = int (length xs)"
    unfolding Stats_inv_def by blast+
  have t'_eq: "t' = \<lparr>list_t = readings_of ?s (xs @ [x]),
                      iList = map int_of_float (readings_of ?s (xs @ [x]))\<rparr>"
    by (cases "?s \<in> symbol_v ` set xs")
       (simp_all add: t' A readings_of_snoc readings_of_absent)
  have cnt: "itemCount r' = int (length (readings_of ?s (xs @ [x])))"
  proof (cases "map_of rm ?s")
    case None
    with B have "?s \<notin> symbol_v ` set xs" by simp
    then show ?thesis using None by (simp add: r' readings_of_snoc readings_of_absent)
  next
    case (Some r)
    then show ?thesis using C [OF Some] by (simp add: r' readings_of_snoc)
  qed
  have 1: "\<forall>sy. map_of tm' sy =
        (if sy \<in> symbol_v ` set (xs @ [x])
         then Some \<lparr>list_t = readings_of sy (xs @ [x]),
                    iList = map int_of_float (readings_of sy (xs @ [x]))\<rparr>
         else None)"
    using t'_eq by (auto simp: tm' AList.update_conv' A readings_of_snoc)
  have 2: "\<forall>sy. (map_of rm' sy = None) = (sy \<notin> symbol_v ` set (xs @ [x]))"
    by (auto simp: rm' AList.update_conv' B)
  have 3: "\<forall>sy r. map_of rm' sy = Some r \<longrightarrow> itemCount r = int (length (readings_of sy (xs @ [x])))"
    using cnt C by (auto simp: rm' AList.update_conv' readings_of_snoc)
  have 4: "(\<Sum>p\<leftarrow>rm'. itemCount (snd p)) = int (length (xs @ [x]))"
    by (simp add: rm' sum_itemCount_update D r')
  from 1 2 3 4 show ?thesis unfolding Stats_inv_def by blast
qed

lemma Stats_step_total: "\<exists>tm' rm'. Stats_step now x (tm, rm) = Inr (tm', rm')"
  by (simp add: Stats_step_Inr)

lemma Stats_pass_inv:
  "\<exists>tm rm. Stats_pass now xs ([], []) = Inr (tm, rm) \<and> Stats_inv xs tm rm"
proof (induction xs rule: rev_induct)
  case Nil
  show ?case by (simp add: Stats_inv_def)
next
  case (snoc x xs)
  then obtain tm rm where p: "Stats_pass now xs ([], []) = Inr (tm, rm)" and i: "Stats_inv xs tm rm"
    by blast
  obtain tm' rm' where s: "Stats_step now x (tm, rm) = Inr (tm', rm')"
    using Stats_step_total by blast
  have "Stats_pass now (xs @ [x]) ([], []) = Inr (tm', rm')"
    by (simp add: Stats_pass_snoc p s)
  with Stats_inv_step [OF i s] show ?case by blast
qed

lemma Stats_summary_lookup:
  "Stats_summary tm rm = Inr out \<Longrightarrow>
   map_of out sy =
     (case map_of rm sy of
        None \<Rightarrow> None
      | Some r \<Rightarrow>
          (case map_of tm sy of
             None \<Rightarrow> None
           | Some t \<Rightarrow>
               Some \<lparr>max_v = max_v r, min_v = min_v r, itemCount = itemCount r,
                     stdev = sqrt ((\<Sum>x\<leftarrow>list_t t. (x - sum_list (list_t t) / real (length (list_t t)))\<^sup>2)
                               / real (length (list_t t) - 1)),
                     mean = sum_list (list_t t) / real (length (list_t t)),
                     mode = (\<Sum>i\<leftarrow>iList t. real_of_int i) / real (length (iList t))\<rparr>))"
proof (induction rm arbitrary: out)
  case Nil
  then show ?case by simp
next
  case (Cons p rm)
  obtain sy' r' where p: "p = (sy', r')" by (cases p)
  from Cons.prems obtain t out' where
    t: "map_of tm sy' = Some t" and l: "\<not> length (list_t t) < 2" and
    rest: "Stats_summary tm rm = Inr out'" and
    out: "out = (sy', \<lparr>max_v = max_v r', min_v = min_v r', itemCount = itemCount r',
                 stdev = sqrt ((\<Sum>x\<leftarrow>list_t t. (x - sum_list (list_t t) / real (length (list_t t)))\<^sup>2)
                               / real (length (list_t t) - 1)),
                 mean = sum_list (list_t t) / real (length (list_t t)),
                 mode = (\<Sum>i\<leftarrow>iList t. real_of_int i) / real (length (iList t))\<rparr>) # out'"
    by (auto simp: p dict_get_def stdev_py_def mean_py_def Let_def comp_def
             split: option.splits sum.splits if_splits)
  show ?case
    using Cons.IH [OF rest] by (simp add: p out t)
qed

lemma Stats_summary_two:
  "Stats_summary tm rm = Inr out \<Longrightarrow> (sy, r) \<in> set rm \<Longrightarrow>
   \<exists>t. map_of tm sy = Some t \<and> 2 \<le> length (list_t t)"
  by (induction rm arbitrary: out)
     (auto simp: dict_get_def stdev_py_def split: option.splits sum.splits if_splits)

lemma Stats_summary_error:
  "Stats_summary tm rm = Inl e \<Longrightarrow> \<forall>p \<in> set rm. map_of tm (fst p) \<noteq> None \<Longrightarrow> e = StatisticsError"
  by (induction rm arbitrary: e)
     (auto simp: dict_get_def stdev_py_def mean_py_def Let_def split: option.splits sum.splits if_splits)

lemma Stats_summary_total:
  "\<forall>p \<in> set rm. \<exists>t. map_of tm (fst p) = Some t \<and> 2 \<le> length (list_t t) \<and> iList t \<noteq> [] \<Longrightarrow>
   \<exists>out. Stats_summary tm rm = Inr out"
  by (induction rm)
     (auto simp: dict_get_def stdev_py_def mean_py_def Let_def split: option.splits sum.splits if_splits)

lemma Stats_summary_counts:
  "Stats_summary tm rm = Inr out \<Longrightarrow>
   map (\<lambda>p. itemCount (snd p)) out = map (\<lambda>p. itemCount (snd p)) rm \<and> map fst out = map fst rm"
  by (induction rm arbitrary: out) (auto split: sum.splits)

lemma Stats_pass_distinct:
  "Stats_pass now xs (tm, rm) = Inr (tm', rm') \<Longrightarrow> distinct (map fst rm) \<Longrightarrow> distinct (map fst rm')"
proof (induction xs arbitrary: tm rm)
  case Nil
  then show ?case by simp
next
  case (Cons x xs)
  then show ?case
    by (auto simp: Stats_step_Inr AList.distinct_update split: sum.splits)
qed

lemma round_py_sentinels: "round_py 10000000 2 = 10000000" "round_py (- 10000000) 2 = - 10000000"
  by (simp_all add: round_py_def round_half_even_def)

lemma Stats_inv_temp:
  "Stats_inv xs tm rm \<Longrightarrow> sy \<in> symbol_v ` set xs \<Longrightarrow>
   map_of tm sy =
     Some \<lparr>list_t = readings_of sy xs, iList = map int_of_float (readings_of sy xs)\<rparr>"
  unfolding Stats_inv_def by simp

lemma Stats_inv_key: "Stats_inv xs tm rm \<Longrightarrow> (map_of rm sy = None) = (sy \<notin> symbol_v ` set xs)"
  unfolding Stats_inv_def by blast

lemma Stats_inv_count:
  "Stats_inv xs tm rm \<Longrightarrow> map_of rm sy = Some r \<Longrightarrow> itemCount r = int (length (readings_of sy xs))"
  unfolding Stats_inv_def by blast

lemma Stats_inv_sum: "Stats_inv xs tm rm \<Longrightarrow> (\<Sum>p\<leftarrow>rm. itemCount (snd p)) = int (length xs)"
  unfolding Stats_inv_def by blast

lemma Stats_cases:
  obtains tm rm where "Stats_pass now xs ([], []) = Inr (tm, rm)" "Stats_inv xs tm rm"
    "Stats now xs = Stats_summary tm rm" "distinct (map fst rm)"
proof -
  obtain tm rm where p: "Stats_pass now xs ([], []) = Inr (tm, rm)" and i: "Stats_inv xs tm rm"
    using Stats_pass_inv by blast
  have s: "Stats now xs = Stats_summary tm rm" by (simp add: Stats_def p)
  have d: "distinct (map fst rm)" using Stats_pass_distinct [OF p] by simp
  show ?thesis using that [OF p i s d] .
qed

lemma Stats_total:
  assumes "\<forall>sy \<in> symbol_v ` set xs. 2 \<le> length (readings_of sy xs)"
  shows "\<exists>results. Stats now xs = Inr results"
proof -
  obtain tm rm where i: "Stats_inv xs tm rm" and s: "Stats now xs = Stats_summary tm rm"
    by (rule Stats_cases)
  have "\<forall>p \<in> set rm. \<exists>t. map_of tm (fst p) = Some t \<and> 2 \<le> length (list_t t) \<and> iList t \<noteq> []"
  proof
    fix p assume "p \<in> set rm"
    then have "fst p \<in> fst ` set rm" by (rule imageI)
    then have "map_of rm (fst p) \<noteq> None" by (simp add: map_of_eq_None_iff)
    then have in_xs: "fst p \<in> symbol_v ` set xs" using Stats_inv_key [OF i, of "fst p"] by simp
    have t: "map_of tm (fst p) =
        Some \<lparr>list_t = readings_of (fst p) xs, iList = map int_of_float (readings_of (fst p) xs)\<rparr>"
      by (rule Stats_inv_temp [OF i in_xs])
    from assms in_xs have two: "2 \<le> length (readings_of (fst p) xs)" by blast
    then have "readings_of (fst p) xs \<noteq> []" by auto
    with t two show "\<exists>t. map_of tm (fst p) = Some t \<and> 2 \<le> length (list_t t) \<and> iList t \<noteq> []"
      by simp
  qed
  then obtain out where "Stats_summary tm rm = Inr out" using Stats_summary_total by blast
  with s show ?thesis by simp
qed

lemma Stats_lookup:
  assumes "Stats now xs = Inr results" and "sy \<in> symbol_v ` set xs"
  shows "\<exists>mx mn.
     map_of results sy =
       Some \<lparr>max_v = mx, min_v = mn, itemCount = int (length (readings_of sy xs)),
             stdev = sqrt ((\<Sum>x\<leftarrow>readings_of sy xs.
                             (x - sum_list (readings_of sy xs) / real (length (readings_of sy xs)))\<^sup>2)
                           / real (length (readings_of sy xs) - 1)),
             mean = sum_list (readings_of sy xs) / real (length (readings_of sy xs)),
             mode = (\<Sum>x\<leftarrow>readings_of sy xs. real_of_int (int_of_float x))
                      / real (length (readings_of sy xs))\<rparr> \<and>
     2 \<le> length (readings_of sy xs)"
proof -
  obtain tm rm where i: "Stats_inv xs tm rm" and s: "Stats now xs = Stats_summary tm rm"
    by (rule Stats_cases)
  from s assms(1) have sm: "Stats_summary tm rm = Inr results" by simp
  have "map_of rm sy \<noteq> None" using Stats_inv_key [OF i, of sy] assms(2) by simp
  then obtain r where r: "map_of rm sy = Some r" by auto
  have c: "itemCount r = int (length (readings_of sy xs))"
    by (rule Stats_inv_count [OF i r])
  have t: "map_of tm sy =
      Some \<lparr>list_t = readings_of sy xs, iList = map int_of_float (readings_of sy xs)\<rparr>"
    by (rule Stats_inv_temp [OF i assms(2)])
  from r have "(sy, r) \<in> set rm" by (rule map_of_SomeD)
  from Stats_summary_two [OF sm this] t have two: "2 \<le> length (readings_of sy xs)" by simp
  have sum_map: "(\<Sum>i\<leftarrow>map int_of_float (readings_of sy xs). real_of_int i) =
      (\<Sum>x\<leftarrow>readings_of sy xs. real_of_int (int_of_float x))"
    by (simp add: comp_def)
  have "map_of results sy =
       Some \<lparr>max_v = max_v r, min_v = min_v r, itemCount = int (length (readings_of sy xs)),
             stdev = sqrt ((\<Sum>x\<leftarrow>readings_of sy xs.
                             (x - sum_list (readings_of sy xs) / real (length (readings_of sy xs)))\<^sup>2)
                           / real (length (readings_of sy xs) - 1)),
             mean = sum_list (readings_of sy xs) / real (length (readings_of sy xs)),
             mode = (\<Sum>x\<leftarrow>readings_of sy xs. real_of_int (int_of_float x))
                      / real (length (readings_of sy xs))\<rparr>"
    unfolding Stats_summary_lookup [OF sm, of sy] r t c [symmetric]
    by (simp only: option.case temp.select_convs sum_map length_map)
  with two show ?thesis by blast
qed

text \<open>
  C1. The claim: for every symbol with a reading, the aggregate has
  \<open>min.value \<le> r.value \<le> max.value\<close> for each reading \<open>r\<close> of the symbol, the
  extremes being readings of the input and not the seeded sentinels. The code run on
  two rising temperatures, 5 then 7: each reading replaces the maximum, so the
  \<open>elif\<close> never tests the minimum, and \<open>min\<close> is still the sentinel
  \<open>Value(10E6)\<close>, whose value 10000000 is above both readings.
\<close>

theorem Stats_rising_min_is_sentinel:
  "Stats sample_now rising =
     Inr [(temperature,
           \<lparr>max_v = \<lparr>value_v = 7, symbol_v = temperature, instant = (2024, 1, 5, 9, 0, 0, 0)\<rparr>,
            min_v = \<lparr>value_v = 10000000, symbol_v = temperature,
                     instant = (2024, 1, 1, 0, 0, 0, 0)\<rparr>,
            itemCount = 2, stdev = sqrt 2, mean = 6, mode = 6\<rparr>)]"
  by (simp add: Stats_def rising_def sample_now_def Stats_step_Inr round_py_sentinels
        update_extremes_def int_of_float_def dict_get_def stdev_py_def mean_py_def Let_def)

text \<open>
  C2. The claim: a symbol with exactly one reading has count 1 and both \<open>max\<close> and
  \<open>min\<close> equal to that reading. The code run on one temperature reading of 5: after
  the first loop the entry has \<open>itemCount = 1\<close> and \<open>max\<close> is the reading, but
  \<open>min\<close> is the sentinel \<open>Value(10E6)\<close> with the import-time instant; the second
  loop then raises StatisticsError, so no aggregate is returned.
\<close>

theorem Stats_lone_reading:
  "Stats_pass sample_now lone ([], []) =
     Inr ([(temperature, \<lparr>list_t = [5], iList = [5]\<rparr>)],
          [(temperature,
            \<lparr>max_v = \<lparr>value_v = 5, symbol_v = temperature, instant = (2024, 1, 5, 8, 0, 0, 0)\<rparr>,
             min_v = \<lparr>value_v = 10000000, symbol_v = temperature,
                      instant = (2024, 1, 1, 0, 0, 0, 0)\<rparr>,
             itemCount = 1\<rparr>)]) \<and>
   Stats sample_now lone = Inl StatisticsError"
  by (simp add: Stats_def lone_def sample_now_def Stats_step_Inr round_py_sentinels
        update_extremes_def int_of_float_def dict_get_def stdev_py_def mean_py_def Let_def)

lemma sample_readings_two:
  "\<forall>sy \<in> symbol_v ` set sample_readings. 2 \<le> length (readings_of sy sample_readings)"
  by (simp add: sample_readings_def readings_of_def)

lemma sample_readings_temperature: "readings_of temperature sample_readings = [5.7, 7.2]"
  by (simp add: sample_readings_def readings_of_def)

lemma int_of_float_samples: "int_of_float 5.7 = 5" "int_of_float 7.2 = 7"
  by (simp_all add: int_of_float_def)

text \<open>
  C5. The first loop always completes, its \<open>resultMap\<close> has one entry per symbol
  and the \<open>itemCount\<close>s of the entries add up to the length of the input; whenever
  \<open>Stats\<close> returns, the same holds of the result map; and the empty input returns
  the empty map.
\<close>

theorem Stats_count_consistency:
  "(\<exists>tempMap resultMap.
      Stats_pass now dataList ([], []) = Inr (tempMap, resultMap) \<and>
      distinct (map fst resultMap) \<and>
      (\<Sum>p\<leftarrow>resultMap. itemCount (snd p)) = int (length dataList)) \<and>
   (\<forall>results. Stats now dataList = Inr results \<longrightarrow>
      distinct (map fst results) \<and>
      (\<Sum>p\<leftarrow>results. itemCount (snd p)) = int (length dataList)) \<and>
   Stats now [] = Inr []"
proof -
  obtain tm rm where p: "Stats_pass now dataList ([], []) = Inr (tm, rm)"
    and i: "Stats_inv dataList tm rm" and s: "Stats now dataList = Stats_summary tm rm"
    and d: "distinct (map fst rm)"
    by (rule Stats_cases)
  have sum: "(\<Sum>p\<leftarrow>rm. itemCount (snd p)) = int (length dataList)"
    by (rule Stats_inv_sum [OF i])
  have fin: "distinct (map fst results) \<and> (\<Sum>p\<leftarrow>results. itemCount (snd p)) = int (length dataList)"
    if "Stats now dataList = Inr results" for results
  proof -
    from that s have "Stats_summary tm rm = Inr results" by simp
    from Stats_summary_counts [OF this] have
      "map (\<lambda>p. itemCount (snd p)) results = map (\<lambda>p. itemCount (snd p)) rm"
      "map fst results = map fst rm" by simp_all
    with sum d show ?thesis by simp
  qed
  have e: "Stats now [] = Inr []" by (simp add: Stats_def)
  from p d sum have "\<exists>tempMap resultMap.
      Stats_pass now dataList ([], []) = Inr (tempMap, resultMap) \<and>
      distinct (map fst resultMap) \<and>
      (\<Sum>p\<leftarrow>resultMap. itemCount (snd p)) = int (length dataList)" by blast
  with fin e show ?thesis by blast
qed

text \<open>On the sample with two temperatures and two humidities the counts add up to 4.\<close>

theorem Stats_count_consistency_witness:
  "\<exists>results. Stats sample_now sample_readings = Inr results \<and>
     (\<Sum>p\<leftarrow>results. itemCount (snd p)) = 4"
proof -
  obtain results where r: "Stats sample_now sample_readings = Inr results"
    using Stats_total [OF sample_readings_two] by blast
  from Stats_count_consistency [of sample_now sample_readings] r
  have "(\<Sum>p\<leftarrow>results. itemCount (snd p)) = int (length sample_readings)" by blast
  then have "(\<Sum>p\<leftarrow>results. itemCount (snd p)) = 4" by (simp add: sample_readings_def)
  with r show ?thesis by blast
qed

text \<open>
  C6. Whenever \<open>Stats\<close> returns, every symbol of the input has an aggregate, and its
  field \<open>mode\<close> is the sum of the integer-truncated values of the readings of that
  symbol divided by their number: the arithmetic mean of the truncated values.
\<close>

theorem Stats_mode_is_truncated_mean:
  "Stats now dataList = Inr results \<Longrightarrow> sy \<in> symbol_v ` set dataList \<Longrightarrow>
   \<exists>a. map_of results sy = Some a \<and>
     mode a = (\<Sum>x\<leftarrow>readings_of sy dataList. real_of_int (int_of_float x))
                / real (length (readings_of sy dataList))"
proof -
  assume "Stats now dataList = Inr results" and "sy \<in> symbol_v ` set dataList"
  from Stats_lookup [OF this] obtain mx mn where
    "map_of results sy =
       Some \<lparr>max_v = mx, min_v = mn, itemCount = int (length (readings_of sy dataList)),
             stdev = sqrt ((\<Sum>x\<leftarrow>readings_of sy dataList.
                             (x - sum_list (readings_of sy dataList)
                                    / real (length (readings_of sy dataList)))\<^sup>2)
                           / real (length (readings_of sy dataList) - 1)),
             mean = sum_list (readings_of sy dataList) / real (length (readings_of sy dataList)),
             mode = (\<Sum>x\<leftarrow>readings_of sy dataList. real_of_int (int_of_float x))
                      / real (length (readings_of sy dataList))\<rparr>"
    by blast
  then show ?thesis by simp
qed

text \<open>Temperatures 5.7 and 7.2 truncate to 5 and 7, so \<open>mode\<close> is 6.\<close>

theorem Stats_mode_is_truncated_mean_witness:
  "\<exists>results a. Stats sample_now sample_readings = Inr results \<and>
     map_of results temperature = Some a \<and> mode a = 6"
proof -
  obtain results where r: "Stats sample_now sample_readings = Inr results"
    using Stats_total [OF sample_readings_two] by blast
  have "temperature \<in> symbol_v ` set sample_readings"
    by (simp add: sample_readings_def)
  from Stats_mode_is_truncated_mean [OF r this] obtain a where
    a: "map_of results temperature = Some a" and
    m: "mode a = (\<Sum>x\<leftarrow>readings_of temperature sample_readings. real_of_int (int_of_float x))
                / real (length (readings_of temperature sample_readings))"
    by blast
  have "(\<Sum>x\<leftarrow>[5.7, 7.2]. real_of_int (int_of_float x)) / real (length [5.7, 7.2 :: real]) = 6"
    by (simp add: int_of_float_def)
  with m have "mode a = 6" by (simp only: sample_readings_temperature)
  with r a show ?thesis by blast
qed

lemma Stats_error_kind:
  assumes "Stats now xs = Inl e"
  shows "e = StatisticsError"
proof -
  obtain tm rm where i: "Stats_inv xs tm rm" and s: "Stats now xs = Stats_summary tm rm"
    by (rule Stats_cases)
  have "\<forall>p \<in> set rm. map_of tm (fst p) \<noteq> None"
  proof
    fix p assume "p \<in> set rm"
    then have "fst p \<in> fst ` set rm" by (rule imageI)
    then have "map_of rm (fst p) \<noteq> None" by (simp add: map_of_eq_None_iff)
    then have "fst p \<in> symbol_v ` set xs" using Stats_inv_key [OF i, of "fst p"] by simp
    from Stats_inv_temp [OF i this] show "map_of tm (fst p) \<noteq> None" by simp
  qed
  moreover from assms s have "Stats_summary tm rm = Inl e" by simp
  ultimately show ?thesis by (rule Stats_summary_error [rotated])
qed

text \<open>
  C7. If some symbol has exactly one reading, \<open>Stats\<close> raises StatisticsError. If
  every symbol of the input has at least two readings, \<open>Stats\<close> returns; and whenever
  it returns, each symbol of the input has at least two readings and the field
  \<open>stdev\<close> of its aggregate is the sample standard deviation of its raw values: the
  square root of the sum of squared deviations from their mean over \<open>n - 1\<close>.
\<close>

theorem Stats_stdev:
  "((\<exists>sy. length (readings_of sy dataList) = 1) \<longrightarrow> Stats now dataList = Inl StatisticsError) \<and>
   ((\<forall>sy \<in> symbol_v ` set dataList. 2 \<le> length (readings_of sy dataList)) \<longrightarrow>
      (\<exists>results. Stats now dataList = Inr results)) \<and>
   (\<forall>results sy. Stats now dataList = Inr results \<longrightarrow> sy \<in> symbol_v ` set dataList \<longrightarrow>
      (\<exists>a. map_of results sy = Some a \<and> 2 \<le> length (readings_of sy dataList) \<and>
         stdev a =
           sqrt ((\<Sum>x\<leftarrow>readings_of sy dataList.
                    (x - sum_list (readings_of sy dataList)
                           / real (length (readings_of sy dataList)))\<^sup>2)
                 / real (length (readings_of sy dataList) - 1))))"
proof (intro conjI impI allI)
  assume "\<exists>sy. length (readings_of sy dataList) = 1"
  then obtain sy where one: "length (readings_of sy dataList) = 1" by blast
  then have "readings_of sy dataList \<noteq> []" by auto
  then have present: "sy \<in> symbol_v ` set dataList" using readings_of_absent by blast
  show "Stats now dataList = Inl StatisticsError"
  proof (cases "Stats now dataList")
    case (Inl e)
    then show ?thesis using Stats_error_kind [OF Inl] by simp
  next
    case (Inr results)
    from Stats_lookup [OF Inr present] have "2 \<le> length (readings_of sy dataList)" by blast
    with one show ?thesis by simp
  qed
next
  assume "\<forall>sy \<in> symbol_v ` set dataList. 2 \<le> length (readings_of sy dataList)"
  then show "\<exists>results. Stats now dataList = Inr results" by (rule Stats_total)
next
  fix results sy
  assume "Stats now dataList = Inr results" and "sy \<in> symbol_v ` set dataList"
  from Stats_lookup [OF this] obtain mx mn where
    m: "map_of results sy =
       Some \<lparr>max_v = mx, min_v = mn, itemCount = int (length (readings_of sy dataList)),
             stdev = sqrt ((\<Sum>x\<leftarrow>readings_of sy dataList.
                             (x - sum_list (readings_of sy dataList)
                                    / real (length (readings_of sy dataList)))\<^sup>2)
                           / real (length (readings_of sy dataList) - 1)),
             mean = sum_list (readings_of sy dataList) / real (length (readings_of sy dataList)),
             mode = (\<Sum>x\<leftarrow>readings_of sy dataList. real_of_int (int_of_float x))
                      / real (length (readings_of sy dataList))\<rparr>"
    and two: "2 \<le> length (readings_of sy dataList)"
    by blast
  from m two show "\<exists>a. map_of results sy = Some a \<and> 2 \<le> length (readings_of sy dataList) \<and>
         stdev a =
           sqrt ((\<Sum>x\<leftarrow>readings_of sy dataList.
                    (x - sum_list (readings_of sy dataList)
                           / real (length (readings_of sy dataList)))\<^sup>2)
                 / real (length (readings_of sy dataList) - 1))"
    by simp
qed

lemma sample_readings_humidity: "readings_of humidity sample_readings = [40, 60]"
  by (simp add: sample_readings_def readings_of_def)

text \<open>The lone reading raises; the humidities 40 and 60 have standard deviation
  \<open>sqrt 200\<close>.\<close>

theorem Stats_stdev_witness:
  "Stats sample_now lone = Inl StatisticsError \<and>
   (\<exists>results a. Stats sample_now sample_readings = Inr results \<and>
      map_of results humidity = Some a \<and> stdev a = sqrt 200)"
proof -
  have "length (readings_of temperature lone) = 1"
    by (simp add: lone_def readings_of_def)
  then have "\<exists>sy. length (readings_of sy lone) = 1" by blast
  with Stats_stdev [of lone sample_now] have 1: "Stats sample_now lone = Inl StatisticsError"
    by blast
  from Stats_stdev [of sample_readings sample_now] sample_readings_two
  obtain results where r: "Stats sample_now sample_readings = Inr results" by blast
  have "humidity \<in> symbol_v ` set sample_readings" by (simp add: sample_readings_def)
  with Stats_stdev [of sample_readings sample_now] r obtain a where
    a: "map_of results humidity = Some a" and
    sd: "stdev a =
           sqrt ((\<Sum>x\<leftarrow>readings_of humidity sample_readings.
                    (x - sum_list (readings_of humidity sample_readings)
                           / real (length (readings_of humidity sample_readings)))\<^sup>2)
                 / real (length (readings_of humidity sample_readings) - 1))"
    by blast
  have "(\<Sum>x\<leftarrow>[40, 60 :: real]. (x - sum_list [40, 60] / real (length [40, 60 :: real]))\<^sup>2)
          / real (length [40, 60 :: real] - 1) = 200"
    by simp
  with sd have "stdev a = sqrt 200" by (simp only: sample_readings_humidity)
  with 1 r a show ?thesis by blast
qed

subsection \<open>The archive scan\<close>

lemma pivot_text_sample: "pivot_text 2024 1 5 = ''2024-01-05''"
  by code_simp

lemmas scan_eval =
  betweenDatetimes_def glob1_def ishidden_def lastPathElement_def cpython_def
  int_of_string_def float_of_string_def strip_py_def is_space_def nat_of_string_def
  unsigned_decimal_def digit_val_def strptime_std_def parse_date_def parse_time_def
  fixed_nat_def days_in_month_def leap_year_def fromFileName_def data_unfold
  Symbols_call_def Symbols_members_def Value_init_Inr round_py_def round_half_even_def

lemma sample_archive_midnight:
  "betweenDatetimes cpython sample_archive (2024, 1, 5, 0, 0, 0, 0) (2024, 1, 5, 20, 0, 0, 0) =
     Inr [\<lparr>value_v = 12.35, symbol_v = temperature, instant = (2024, 1, 5, 12, 0, 0, 0)\<rparr>]"
  by (simp add: sample_archive_def pivot_text_sample scan_eval)

lemma scan_lines_inv:
  assumes "scan_lines lib start end_dt ty lines acc = Inr out"
    and "\<forall>v \<in> set acc. start \<le> instant v \<and> instant v \<le> end_dt \<and>
           (\<exists>x. Value_init x (symbol_v v) (instant v) = Inr v)"
  shows "\<forall>v \<in> set out. start \<le> instant v \<and> instant v \<le> end_dt \<and>
           (\<exists>x. Value_init x (symbol_v v) (instant v) = Inr v)"
  using assms
proof (induction lines arbitrary: acc)
  case Nil
  then show ?case by simp
next
  case (Cons line rest)
  show ?case
  proof (cases "length (split_py CHR '','' line) < 2")
    case True
    with Cons.prems(1) have "scan_lines lib start end_dt ty rest acc = Inr out" by simp
    from Cons.IH [OF this Cons.prems(2)] show ?thesis .
  next
    case False
    with Cons.prems(1) obtain dateT where
      d: "strptime lib (split_py CHR '','' line ! 0) ''%Y-%m-%d %H:%M:%S'' = Some dateT"
      by (auto simp: Let_def split: option.splits)
    show ?thesis
    proof (cases "start > dateT \<or> end_dt < dateT")
      case True
      with Cons.prems(1) False d have "scan_lines lib start end_dt ty rest acc = Inr out"
        by (simp add: Let_def)
      from Cons.IH [OF this Cons.prems(2)] show ?thesis .
    next
      case inrange: False
      with Cons.prems(1) False d obtain x where
        "float_py lib (split_py CHR '','' line ! 1) = Some x"
        by (auto simp: Let_def split: option.splits)
      moreover define v where "v = \<lparr>value_v = round_py x 2, symbol_v = ty, instant = dateT\<rparr>"
      ultimately have r: "scan_lines lib start end_dt ty rest (acc @ [v]) = Inr out"
        using Cons.prems(1) False d inrange by (simp add: Let_def Value_init_Inr)
      have "Value_init x (symbol_v v) (instant v) = Inr v"
        by (simp add: v_def Value_init_Inr)
      moreover have "start \<le> instant v \<and> instant v \<le> end_dt"
        using inrange by (simp add: v_def not_less)
      ultimately have "\<forall>v \<in> set (acc @ [v]). start \<le> instant v \<and> instant v \<le> end_dt \<and>
           (\<exists>x. Value_init x (symbol_v v) (instant v) = Inr v)"
        using Cons.prems(2) by auto
      from Cons.IH [OF r this] show ?thesis .
    qed
  qed
qed

lemma scan_files_inv:
  assumes "scan_files lib start end_dt files acc = Inr out"
    and "\<forall>v \<in> set acc. start \<le> instant v \<and> instant v \<le> end_dt \<and>
           (\<exists>x. Value_init x (symbol_v v) (instant v) = Inr v)"
  shows "\<forall>v \<in> set out. start \<le> instant v \<and> instant v \<le> end_dt \<and>
           (\<exists>x. Value_init x (symbol_v v) (instant v) = Inr v)"
  using assms
proof (induction files arbitrary: acc)
  case Nil
  then show ?case by simp
next
  case (Cons f rest)
  obtain elementPath nd where f: "f = (elementPath, nd)" by (cases f)
  from Cons.prems(1) obtain ty lines acc' where
    l: "scan_lines lib start end_dt ty lines acc = Inr acc'" and
    r: "scan_files lib start end_dt rest acc' = Inr out"
    by (auto simp: f Let_def split: option.splits sum.splits node.splits)
  from Cons.IH [OF r scan_lines_inv [OF l Cons.prems(2)]] show ?case .
qed

lemma scan_days_inv:
  assumes "scan_days lib start end_dt year month days acc = Inr out"
    and "\<forall>v \<in> set acc. start \<le> instant v \<and> instant v \<le> end_dt \<and>
           (\<exists>x. Value_init x (symbol_v v) (instant v) = Inr v)"
  shows "\<forall>v \<in> set out. start \<le> instant v \<and> instant v \<le> end_dt \<and>
           (\<exists>x. Value_init x (symbol_v v) (instant v) = Inr v)"
  using assms
proof (induction days arbitrary: acc)
  case Nil
  then show ?case by simp
next
  case (Cons d rest)
  obtain dPath nd where d: "d = (dPath, nd)" by (cases d)
  from Cons.prems(1) consider
    (skip) "scan_days lib start end_dt year month rest acc = Inr out"
  | (scan) acc' where "scan_files lib start end_dt (glob1 dPath nd ''*.csv'') acc = Inr acc'"
      "scan_days lib start end_dt year month rest acc' = Inr out"
    by (auto simp: d split: option.splits sum.splits if_splits)
  then show ?case
  proof cases
    case skip
    from Cons.IH [OF skip Cons.prems(2)] show ?thesis .
  next
    case scan
    from Cons.IH [OF scan(2) scan_files_inv [OF scan(1) Cons.prems(2)]] show ?thesis .
  qed
qed

lemma scan_months_inv:
  assumes "scan_months lib start end_dt year months acc = Inr out"
    and "\<forall>v \<in> set acc. start \<le> instant v \<and> instant v \<le> end_dt \<and>
           (\<exists>x. Value_init x (symbol_v v) (instant v) = Inr v)"
  shows "\<forall>v \<in> set out. start \<le> instant v \<and> instant v \<le> end_dt \<and>
           (\<exists>x. Value_init x (symbol_v v) (instant v) = Inr v)"
  using assms
proof (induction months arbitrary: acc)
  case Nil
  then show ?case by simp
next
  case (Cons m rest)
  obtain mPath nd where m: "m = (mPath, nd)" by (cases m)
  from Cons.prems(1) obtain month acc' where
    d: "scan_days lib start end_dt year month (glob1 mPath nd ''*'') acc = Inr acc'" and
    r: "scan_months lib start end_dt year rest acc' = Inr out"
    by (auto simp: m split: option.splits sum.splits)
  from Cons.IH [OF r scan_days_inv [OF d Cons.prems(2)]] show ?case .
qed

lemma scan_years_inv:
  assumes "scan_years lib start end_dt years acc = Inr out"
    and "\<forall>v \<in> set acc. start \<le> instant v \<and> instant v \<le> end_dt \<and>
           (\<exists>x. Value_init x (symbol_v v) (instant v) = Inr v)"
  shows "\<forall>v \<in> set out. start \<le> instant v \<and> instant v \<le> end_dt \<and>
           (\<exists>x. Value_init x (symbol_v v) (instant v) = Inr v)"
  using assms
proof (induction years arbitrary: acc)
  case Nil
  then show ?case by simp
next
  case (Cons y rest)
  obtain yPath nd where y: "y = (yPath, nd)" by (cases y)
  from Cons.prems(1) obtain year acc' where
    m: "scan_months lib start end_dt year (glob1 yPath nd ''*'') acc = Inr acc'" and
    r: "scan_years lib start end_dt rest acc' = Inr out"
    by (auto simp: y split: option.splits sum.splits)
  from Cons.IH [OF r scan_months_inv [OF m Cons.prems(2)]] show ?case .
qed

lemma betweenDatetimes_inv:
  assumes "betweenDatetimes lib dati start end_dt = Inr found" and "v \<in> set found"
  shows "start \<le> instant v \<and> instant v \<le> end_dt \<and>
           (\<exists>x. Value_init x (symbol_v v) (instant v) = Inr v)"
proof -
  from assms(1) have "scan_years lib start end_dt (glob1 ''dati'' dati ''2*'') [] = Inr found"
    by (simp add: betweenDatetimes_def)
  from scan_years_inv [OF this] assms(2) show ?thesis by simp
qed

lemma fnmatch_star: "fnmatch name ''*''"
  by (induction name) simp_all

lemma fnmatch_2_star: "fnmatch name ''2*'' \<longleftrightarrow> take 1 name = ''2''"
  by (cases name) (auto simp: fnmatch_star)

lemma glob1_years:
  "glob1 ''dati'' (Dir (filter (\<lambda>p. take 1 (fst p) = ''2'') entries)) ''2*'' =
   glob1 ''dati'' (Dir entries) ''2*''"
  by (simp add: glob1_def fnmatch_2_star conj_commute cong: conj_cong)

lemma glob1_no_years:
  "\<forall>p \<in> set entries. take 1 (fst p) \<noteq> ''2'' \<Longrightarrow> glob1 ''dati'' (Dir entries) ''2*'' = []"
  by (simp add: glob1_def fnmatch_2_star filter_empty_conv)

text \<open>
  C3. The claim: for \<open>start \<le> end\<close> the scan returns every stored reading whose
  timestamp lies in the interval, a day that straddles the start included. The code
  run on the sample archive, whose one row is stamped 2024-01-05 12:00:00: for the
  interval from 10:00:00 to 20:00:00 of that day the pivot of the day directory is
  midnight, \<open>start > pivot\<close> holds, the directory is skipped and nothing is returned,
  although the row lies in the interval; from midnight on, the same row is returned.
\<close>

theorem betweenDatetimes_start_day_dropped:
  "betweenDatetimes cpython sample_archive (2024, 1, 5, 10, 0, 0, 0) (2024, 1, 5, 20, 0, 0, 0) =
     Inr [] \<and>
   betweenDatetimes cpython sample_archive (2024, 1, 5, 0, 0, 0, 0) (2024, 1, 5, 20, 0, 0, 0) =
     Inr [\<lparr>value_v = 12.35, symbol_v = temperature, instant = (2024, 1, 5, 12, 0, 0, 0)\<rparr>]"
  by (simp add: sample_archive_def pivot_text_sample scan_eval)

text \<open>
  C4. Whenever the scan returns, for any archive and any behaviour of the parsers,
  every returned reading has \<open>start \<le> instant \<le> end\<close>; hence an inverted range
  returns the empty list.
\<close>

theorem betweenDatetimes_range:
  "betweenDatetimes lib dati start end_dt = Inr found \<Longrightarrow>
   (\<forall>v \<in> set found. start \<le> instant v \<and> instant v \<le> end_dt) \<and>
   (start > end_dt \<longrightarrow> found = [])"
proof -
  assume b: "betweenDatetimes lib dati start end_dt = Inr found"
  have r: "\<forall>v \<in> set found. start \<le> instant v \<and> instant v \<le> end_dt"
    using betweenDatetimes_inv [OF b] by blast
  have "found = []" if "start > end_dt"
  proof (cases found)
    case Nil
    then show ?thesis .
  next
    case (Cons v vs)
    with r have "start \<le> instant v" "instant v \<le> end_dt" by simp_all
    then have "start \<le> end_dt" by (rule order_trans)
    with that show ?thesis by simp
  qed
  with r show ?thesis by blast
qed

text \<open>The sample archive scanned from midnight returns its row, inside the range.\<close>

theorem betweenDatetimes_range_witness:
  "\<exists>v. betweenDatetimes cpython sample_archive
          (2024, 1, 5, 0, 0, 0, 0) (2024, 1, 5, 20, 0, 0, 0) = Inr [v] \<and>
        (2024, 1, 5, 0, 0, 0, 0) \<le> instant v \<and> instant v \<le> (2024, 1, 5, 20, 0, 0, 0)"
proof -
  let ?v = "\<lparr>value_v = 12.35, symbol_v = temperature, instant = (2024, 1, 5, 12, 0, 0, 0)\<rparr>"
  have e: "betweenDatetimes cpython sample_archive
          (2024, 1, 5, 0, 0, 0, 0) (2024, 1, 5, 20, 0, 0, 0) = Inr [?v]"
    by (rule sample_archive_midnight)
  from betweenDatetimes_range [OF e]
  have "(2024, 1, 5, 0, 0, 0, 0) \<le> instant ?v \<and> instant ?v \<le> (2024, 1, 5, 20, 0, 0, 0)"
    by simp
  with e show ?thesis by blast
qed

text \<open>
  C8. The constructor finds the catalog entry of the symbol, whose precision is 2 as
  is that of every entry, and stores the input rounded to that precision; 12.3456
  rounds to 12.35; and every reading a scan returns has a value that is some parsed
  number rounded to the precision of the entry of its symbol.
\<close>

theorem Value_rounded_to_precision:
  "(\<forall>x sy inst. \<exists>dataType.
      fromSymbol (Symbols_value sy) = Some dataType \<and> precision dataType = 2 \<and>
      Value_init x sy inst =
        Inr \<lparr>value_v = round_py x (precision dataType), symbol_v = sy, instant = inst\<rparr>) \<and>
   (\<forall>dataType \<in> set data. precision dataType = 2) \<and>
   round_py 12.3456 2 = 12.35 \<and>
   (\<forall>found. betweenDatetimes lib dati start end_dt = Inr found \<longrightarrow>
      (\<forall>v \<in> set found. \<exists>x dataType.
         fromSymbol (Symbols_value (symbol_v v)) = Some dataType \<and>
         value_v v = round_py x (precision dataType)))"
proof (intro conjI allI impI ballI)
  fix x sy inst
  show "\<exists>dataType.
      fromSymbol (Symbols_value sy) = Some dataType \<and> precision dataType = 2 \<and>
      Value_init x sy inst =
        Inr \<lparr>value_v = round_py x (precision dataType), symbol_v = sy, instant = inst\<rparr>"
    by (cases sy) (simp_all add: Value_init_def fromSymbol_def data_unfold)
next
  fix dataType assume "dataType \<in> set data"
  then show "precision dataType = 2" by (auto simp: data_unfold)
next
  show "round_py 12.3456 2 = 12.35" by (simp add: round_py_def round_half_even_def)
next
  fix found v
  assume "betweenDatetimes lib dati start end_dt = Inr found" and "v \<in> set found"
  from betweenDatetimes_inv [OF this] obtain x where
    x: "Value_init x (symbol_v v) (instant v) = Inr v" by blast
  have "\<exists>dataType. fromSymbol (Symbols_value (symbol_v v)) = Some dataType \<and> precision dataType = 2"
    by (cases "symbol_v v") (simp_all add: fromSymbol_def data_unfold)
  then obtain dataType where
    d: "fromSymbol (Symbols_value (symbol_v v)) = Some dataType" "precision dataType = 2"
    by blast
  from x have "value_v v = round_py x 2" by (simp add: Value_init_Inr) (metis Value.select_convs(1))
  with d show "\<exists>x dataType.
         fromSymbol (Symbols_value (symbol_v v)) = Some dataType \<and>
         value_v v = round_py x (precision dataType)" by auto
qed

text \<open>The row 12.3456 of the sample archive is returned as 12.35.\<close>

theorem Value_rounded_to_precision_witness:
  "Value_init 12.3456 temperature (2024, 1, 5, 12, 0, 0, 0) =
     Inr \<lparr>value_v = 12.35, symbol_v = temperature, instant = (2024, 1, 5, 12, 0, 0, 0)\<rparr> \<and>
   (\<exists>v x dataType.
      betweenDatetimes cpython sample_archive
        (2024, 1, 5, 0, 0, 0, 0) (2024, 1, 5, 20, 0, 0, 0) = Inr [v] \<and>
      fromSymbol (Symbols_value (symbol_v v)) = Some dataType \<and>
      value_v v = round_py x (precision dataType))"
proof -
  let ?v = "\<lparr>value_v = 12.35, symbol_v = temperature, instant = (2024, 1, 5, 12, 0, 0, 0)\<rparr>"
  note t = Value_rounded_to_precision
    [of cpython sample_archive "(2024, 1, 5, 0, 0, 0, 0)" "(2024, 1, 5, 20, 0, 0, 0)"]
  from t have "\<forall>x sy inst. \<exists>dataType.
      fromSymbol (Symbols_value sy) = Some dataType \<and> precision dataType = 2 \<and>
      Value_init x sy inst =
        Inr \<lparr>value_v = round_py x (precision dataType), symbol_v = sy, instant = inst\<rparr>"
    by (rule conjunct1)
  then have "\<exists>dataType.
      fromSymbol (Symbols_value temperature) = Some dataType \<and> precision dataType = 2 \<and>
      Value_init 12.3456 temperature (2024, 1, 5, 12, 0, 0, 0) =
        Inr \<lparr>value_v = round_py 12.3456 (precision dataType), symbol_v = temperature,
             instant = (2024, 1, 5, 12, 0, 0, 0)\<rparr>"
    by (elim allE)
  then obtain dataType :: DataType where
    "precision dataType = 2"
    "Value_init 12.3456 temperature (2024, 1, 5, 12, 0, 0, 0) =
       Inr \<lparr>value_v = round_py 12.3456 (precision dataType), symbol_v = temperature,
            instant = (2024, 1, 5, 12, 0, 0, 0)\<rparr>"
    by blast
  moreover from t have "round_py 12.3456 2 = 12.35" by (elim conjE)
  ultimately have 1: "Value_init 12.3456 temperature (2024, 1, 5, 12, 0, 0, 0) = Inr ?v"
    by simp
  have e: "betweenDatetimes cpython sample_archive
          (2024, 1, 5, 0, 0, 0, 0) (2024, 1, 5, 20, 0, 0, 0) = Inr [?v]"
    by (rule sample_archive_midnight)
  have "?v \<in> set [?v]" by simp
  moreover from t have "\<forall>found. betweenDatetimes cpython sample_archive
          (2024, 1, 5, 0, 0, 0, 0) (2024, 1, 5, 20, 0, 0, 0) = Inr found \<longrightarrow>
      (\<forall>v \<in> set found. \<exists>x dataType.
         fromSymbol (Symbols_value (symbol_v v)) = Some dataType \<and>
         value_v v = round_py x (precision dataType))"
    by (elim conjE)
  ultimately have "\<exists>x dataType.
      fromSymbol (Symbols_value (symbol_v ?v)) = Some dataType \<and>
      value_v ?v = round_py x (precision dataType)"
    using e by blast
  with 1 e show ?thesis by blast
qed

text \<open>
  C10. The scan of an archive equals the scan of the archive with every top-level entry
  whose name does not begin with \<open>2\<close> removed, for every range and any behaviour of
  the parsers; an archive with no such entry left returns the empty list.
\<close>

theorem betweenDatetimes_only_years_2:
  "betweenDatetimes lib (Dir (filter (\<lambda>p. take 1 (fst p) = ''2'') entries)) start end_dt =
     betweenDatetimes lib (Dir entries) start end_dt \<and>
   ((\<forall>p \<in> set entries. take 1 (fst p) \<noteq> ''2'') \<longrightarrow>
      betweenDatetimes lib (Dir entries) start end_dt = Inr [])"
proof (intro conjI impI)
  show "betweenDatetimes lib (Dir (filter (\<lambda>p. take 1 (fst p) = ''2'') entries)) start end_dt =
     betweenDatetimes lib (Dir entries) start end_dt"
    unfolding betweenDatetimes_def glob1_years ..
next
  assume "\<forall>p \<in> set entries. take 1 (fst p) \<noteq> ''2''"
  then have "glob1 ''dati'' (Dir entries) ''2*'' = []" by (rule glob1_no_years)
  then show "betweenDatetimes lib (Dir entries) start end_dt = Inr []"
    unfolding betweenDatetimes_def by simp
qed

text \<open>The directories 1999 and 3000 are never read, whatever the range.\<close>

theorem betweenDatetimes_only_years_2_witness:
  "betweenDatetimes cpython old_archive (1, 1, 1, 0, 0, 0, 0) (9999, 12, 31, 23, 59, 59, 0) =
     Inr []"
proof -
  let ?entries = "[(''1999'',
           Dir [(''01'',
                 Dir [(''05'',
                       Dir [(''temperature.csv'',
                             File [''1999-01-05 12:00:00,1.5'' @ [CHR 0x0A]])])])]),
          (''3000'',
           Dir [(''01'',
                 Dir [(''05'',
                       Dir [(''temperature.csv'',
                             File [''3000-01-05 12:00:00,2.5'' @ [CHR 0x0A]])])])])]"
  have "\<forall>p \<in> set ?entries. take 1 (fst p) \<noteq> ''2''" by simp
  with betweenDatetimes_only_years_2
    [of cpython ?entries "(1, 1, 1, 0, 0, 0, 0)" "(9999, 12, 31, 23, 59, 59, 0)"]
  show ?thesis unfolding old_archive_def by blast
qed

end
